theory Spec2Isabelle
  imports Complex_Main "HOL-Library.Finite_Map"
begin

section \<open>Data model\<close>

text \<open>
  A Python \<open>str\<close> is a sequence of Unicode code points, so a text is a list of code points
  (\<open>len\<close> is \<open>length\<close>, \<open>s[:k]\<close> is \<open>take k s\<close>, \<open>s[k:]\<close> is \<open>drop k s\<close>). ASCII literals
  of the source are written with \<open>ascii\<close>. File-system paths and font names are byte strings.
\<close>

type_synonym ustr = "nat list"
type_synonym path = string

definition ascii :: "string \<Rightarrow> ustr" where
  "ascii s = map of_char s"

definition PAGE_WIDTH :: rat where "PAGE_WIDTH = 612"
definition PAGE_HEIGHT :: rat where "PAGE_HEIGHT = 792"
definition MARGIN :: rat where "MARGIN = 36"

text \<open>
  Lengths and positions are Python floats in the source. They are modelled as exact
  rationals: the grid arithmetic of \<open>glyph_set_page\<close> stays on integers, and every other
  cursor test of the templates is decided with a gap far above rounding error.
\<close>

record font_info =
  family :: ustr
  style :: ustr
  version :: ustr
  designer :: ustr
  glyph_count :: nat
  upm :: nat

text \<open>The graphics state of the drawing surface, and what is drawn with it.\<close>

record gstate =
  gfont :: string
  gsize :: rat
  gfill :: "rat option"
  gstroke :: "rat option"
  gstroke_width :: rat

datatype item =
    Text ustr rat rat gstate
  | Rect rat rat rat rat gstate
  | TextBox ustr rat rat rat rat gstate

record page =
  pwidth :: rat
  pheight :: rat
  items :: "item list"

record drawing =
  pages :: "page list"
  gs :: gstate
  saved :: "gstate list"

text \<open>
  What the run reads from outside: the text measurer of the drawing surface (the width
  component of \<open>db.textSize\<close>, for a font, a size and a text), the two renderings of the
  clock, path resolution and the directory of the script.
\<close>

record env =
  text_width :: "string \<Rightarrow> rat \<Rightarrow> ustr \<Rightarrow> rat"
  date_str :: ustr
  date_time_str :: ustr
  resolve :: "path \<Rightarrow> path"
  script_dir :: path

section \<open>The drawing surface\<close>

definition default_gstate :: gstate where
  "default_gstate =
     \<lparr>gfont = ''LucidaGrande'', gsize = 10, gfill = Some 0, gstroke = None, gstroke_width = 1\<rparr>"

definition db_newDrawing :: drawing where
  "db_newDrawing = \<lparr>pages = [], gs = default_gstate, saved = []\<rparr>"

text \<open>A new page becomes the current (last) page; the graphics state starts afresh on it.\<close>

definition db_newPage :: "rat \<Rightarrow> rat \<Rightarrow> drawing \<Rightarrow> drawing" where
  "db_newPage w h d =
     d\<lparr>pages := pages d @ [\<lparr>pwidth = w, pheight = h, items = []\<rparr>],
       gs := default_gstate, saved := []\<rparr>"

text \<open>Drawing appends to the current page; with no page yet the surface opens its default one.\<close>

definition emit :: "item \<Rightarrow> drawing \<Rightarrow> drawing" where
  "emit it d =
     (case pages d of
        [] \<Rightarrow> d\<lparr>pages := [\<lparr>pwidth = 1000, pheight = 1000, items = [it]\<rparr>]\<rparr>
      | _ # _ \<Rightarrow> d\<lparr>pages := butlast (pages d) @ [(last (pages d))\<lparr>items := items (last (pages d)) @ [it]\<rparr>]\<rparr>)"

definition db_save :: "drawing \<Rightarrow> drawing" where
  "db_save d = d\<lparr>saved := gs d # saved d\<rparr>"

definition db_restore :: "drawing \<Rightarrow> drawing" where
  "db_restore d = (case saved d of [] \<Rightarrow> d | g # rest \<Rightarrow> d\<lparr>gs := g, saved := rest\<rparr>)"

definition db_font :: "string \<Rightarrow> rat \<Rightarrow> drawing \<Rightarrow> drawing" where
  "db_font f s d = d\<lparr>gs := (gs d)\<lparr>gfont := f, gsize := s\<rparr>\<rparr>"

definition db_fill :: "rat option \<Rightarrow> drawing \<Rightarrow> drawing" where
  "db_fill c d = d\<lparr>gs := (gs d)\<lparr>gfill := c\<rparr>\<rparr>"

definition db_stroke :: "rat option \<Rightarrow> drawing \<Rightarrow> drawing" where
  "db_stroke c d = d\<lparr>gs := (gs d)\<lparr>gstroke := c\<rparr>\<rparr>"

definition db_strokeWidth :: "rat \<Rightarrow> drawing \<Rightarrow> drawing" where
  "db_strokeWidth w d = d\<lparr>gs := (gs d)\<lparr>gstroke_width := w\<rparr>\<rparr>"

definition db_text :: "ustr \<Rightarrow> rat \<Rightarrow> rat \<Rightarrow> drawing \<Rightarrow> drawing" where
  "db_text t x y d = emit (Text t x y (gs d)) d"

definition db_rect :: "rat \<Rightarrow> rat \<Rightarrow> rat \<Rightarrow> rat \<Rightarrow> drawing \<Rightarrow> drawing" where
  "db_rect x y w h d = emit (Rect x y w h (gs d)) d"

definition db_textBox :: "ustr \<Rightarrow> rat \<Rightarrow> rat \<Rightarrow> rat \<Rightarrow> rat \<Rightarrow> drawing \<Rightarrow> drawing" where
  "db_textBox t x y w h d = emit (TextBox t x y w h (gs d)) d"

text \<open>\<open>db.textSize(t)[0]\<close>: the width of the text in the current font at the current size.\<close>

definition db_textSize :: "env \<Rightarrow> drawing \<Rightarrow> ustr \<Rightarrow> rat" where
  "db_textSize e d t = text_width e (gfont (gs d)) (gsize (gs d)) t"

definition db_pageCount :: "drawing \<Rightarrow> nat" where
  "db_pageCount d = length (pages d)"

section \<open>Formatting\<close>

text \<open>\<open>str(n)\<close> of a non-negative integer, as the f-strings of the source print it.\<close>

fun str_nat :: "nat \<Rightarrow> ustr" where
  "str_nat n = (if n < 10 then [48 + n] else str_nat (n div 10) @ [48 + n mod 10])"

declare str_nat.simps [simp del]

definition hex_digit :: "nat \<Rightarrow> nat" where
  "hex_digit k = (if k < 10 then 48 + k else 55 + k)"

fun hex_upper :: "nat \<Rightarrow> ustr" where
  "hex_upper n = (if n < 16 then [hex_digit n] else hex_upper (n div 16) @ [hex_digit (n mod 16)])"

declare hex_upper.simps [simp del]

text \<open>The format \<open>04X\<close>: upper-case hexadecimal, padded with zeros to at least four digits.\<close>

definition format_04X :: "nat \<Rightarrow> ustr" where
  "format_04X n = replicate (4 - length (hex_upper n)) 48 @ hex_upper n"

text \<open>\<open>sep.join(parts)\<close>.\<close>

fun join :: "ustr \<Rightarrow> ustr list \<Rightarrow> ustr" where
  "join sep [] = []"
| "join sep [p] = p"
| "join sep (p # q # ps) = p @ sep @ join sep (q # ps)"

section \<open>Header and footer\<close>

definition draw_header :: "env \<Rightarrow> font_info \<Rightarrow> ustr \<Rightarrow> drawing \<Rightarrow> drawing" where
  "draw_header e fi page_title d0 =
     (let d = db_save d0;
          d = db_font ''Helvetica'' 9 d;
          d = db_fill (Some (4/10)) d;
          header_text = family fi @ ascii '' '' @ style fi;
          d = db_text header_text MARGIN (PAGE_HEIGHT - MARGIN + 10) d;
          title_width = db_textSize e d page_title;
          d = db_text page_title (PAGE_WIDTH - MARGIN - title_width) (PAGE_HEIGHT - MARGIN + 10) d
      in db_restore d)"

definition draw_footer :: "env \<Rightarrow> drawing \<Rightarrow> drawing" where
  "draw_footer e d0 =
     (let d = db_save d0;
          d = db_font ''Helvetica'' 8 d;
          d = db_fill (Some (5/10)) d;
          d = db_text (date_str e) MARGIN (MARGIN - 20) d
      in db_restore d)"

section \<open>Page templates\<close>

subsection \<open>Title page\<close>

fun draw_lines :: "ustr list \<Rightarrow> rat \<Rightarrow> drawing \<Rightarrow> drawing" where
  "draw_lines [] y d = d"
| "draw_lines (line # rest) y d = draw_lines rest (y - 16) (db_text line MARGIN y d)"

definition title_page :: "env \<Rightarrow> path \<Rightarrow> font_info \<Rightarrow> drawing \<Rightarrow> drawing" where
  "title_page e font_path fi d0 =
     (let d = db_newPage PAGE_WIDTH PAGE_HEIGHT d0;
          y = PAGE_HEIGHT - MARGIN - 80;
          d = db_font font_path 48 d;
          d = db_fill (Some 0) d;
          d = db_text (family fi) MARGIN y d;
          y = y - 50;
          d = db_font font_path 24 d;
          d = db_text (style fi) MARGIN y d;
          y = y - 80;
          d = db_font font_path 72 d;
          d = db_text (ascii ''Aa Bb Cc'') MARGIN y d;
          y = y - 90;
          d = db_text (ascii ''Dd Ee Ff'') MARGIN y d;
          y = y - 90;
          d = db_text (ascii ''Gg Hh Ii'') MARGIN y d;
          y = y - 120;
          d = db_font ''Helvetica'' 10 d;
          d = db_fill (Some (3/10)) d;
          meta_lines =
            [ascii ''Family: '' @ family fi,
             ascii ''Style: '' @ style fi,
             ascii ''Version: '' @ version fi,
             ascii ''Glyphs: '' @ str_nat (glyph_count fi),
             ascii ''Units per Em: '' @ str_nat (upm fi),
             ascii ''Generated: '' @ date_time_str e];
          meta_lines =
            (if designer fi \<noteq> []
             then take 2 meta_lines @ [ascii ''Designer: '' @ designer fi] @ drop 2 meta_lines
             else meta_lines)
      in draw_lines meta_lines y d)"

subsection \<open>Fit or split\<close>

text \<open>
  The width test that \<open>alphabet_page\<close> applies to each alphabet line and \<open>numerals_page\<close>
  to each punctuation line: a line wider than the usable width is drawn as two lines, cut
  at \<open>len(t) // 2\<close>, the second one \<open>size * 1.3\<close> lower; otherwise it is drawn whole. The
  result is the cursor after the last line drawn.
\<close>

definition fit_or_split :: "env \<Rightarrow> ustr \<Rightarrow> nat \<Rightarrow> rat \<Rightarrow> drawing \<Rightarrow> rat \<times> drawing" where
  "fit_or_split e t sz y d =
     (if db_textSize e d t > PAGE_WIDTH - 2 * MARGIN
      then (let mid = length t div 2;
                d = db_text (take mid t) MARGIN y d;
                y = y - of_nat sz * (13/10);
                d = db_text (drop mid t) MARGIN y d
            in (y, d))
      else (y, db_text t MARGIN y d))"

subsection \<open>Alphabet\<close>

definition uppercase :: ustr where "uppercase = ascii ''ABCDEFGHIJKLMNOPQRSTUVWXYZ''"
definition lowercase :: ustr where "lowercase = ascii ''abcdefghijklmnopqrstuvwxyz''"

fun alphabet_sizes :: "env \<Rightarrow> path \<Rightarrow> nat list \<Rightarrow> rat \<Rightarrow> drawing \<Rightarrow> drawing" where
  "alphabet_sizes e font_path [] y d = d"
| "alphabet_sizes e font_path (sz # rest) y d0 =
     (let d = db_font font_path (of_nat sz) d0;
          d = db_fill (Some 0) d;
          (y, d) = fit_or_split e uppercase sz y d;
          y = y - of_nat sz * (13/10);
          (y, d) = fit_or_split e lowercase sz y d;
          y = y - of_nat sz * (18/10)
      in if y < MARGIN + 50 then d else alphabet_sizes e font_path rest y d)"

definition alphabet_page :: "env \<Rightarrow> path \<Rightarrow> font_info \<Rightarrow> drawing \<Rightarrow> drawing" where
  "alphabet_page e font_path fi d0 =
     (let d = db_newPage PAGE_WIDTH PAGE_HEIGHT d0;
          d = draw_header e fi (ascii ''Alphabet'') d;
          d = draw_footer e d;
          y = PAGE_HEIGHT - MARGIN - 40
      in alphabet_sizes e font_path [48, 36, 24, 18, 14, 11, 9] y d)"

subsection \<open>Numerals and punctuation\<close>

definition numerals :: ustr where "numerals = ascii ''0123456789''"

text \<open>
  The punctuation literal of the source, code point by code point; the eleventh and twelfth
  are the en dash U+2013 and the em dash U+2014.
\<close>

definition punctuation :: ustr where
  "punctuation =
     [46, 44, 59, 58, 33, 63, 34, 39, 96, 45, 8211, 8212, 40, 41, 91, 93, 123, 125, 47, 64,
      35, 36, 37, 94, 38, 42, 43, 61, 60, 62]"

fun numeral_sizes :: "path \<Rightarrow> nat list \<Rightarrow> rat \<Rightarrow> drawing \<Rightarrow> rat \<times> drawing" where
  "numeral_sizes font_path [] y d = (y, d)"
| "numeral_sizes font_path (sz # rest) y d0 =
     (let d = db_font font_path (of_nat sz) d0;
          d = db_fill (Some 0) d;
          d = db_text numerals MARGIN y d;
          y = y - of_nat sz * (15/10)
      in numeral_sizes font_path rest y d)"

fun punctuation_sizes :: "env \<Rightarrow> path \<Rightarrow> nat list \<Rightarrow> rat \<Rightarrow> drawing \<Rightarrow> drawing" where
  "punctuation_sizes e font_path [] y d = d"
| "punctuation_sizes e font_path (sz # rest) y d0 =
     (let d = db_font font_path (of_nat sz) d0;
          d = db_fill (Some 0) d;
          (y, d) = fit_or_split e punctuation sz y d;
          y = y - of_nat sz * (15/10)
      in if y < MARGIN + 30 then d else punctuation_sizes e font_path rest y d)"

definition numerals_page :: "env \<Rightarrow> path \<Rightarrow> font_info \<Rightarrow> drawing \<Rightarrow> drawing" where
  "numerals_page e font_path fi d0 =
     (let d = db_newPage PAGE_WIDTH PAGE_HEIGHT d0;
          d = draw_header e fi (ascii ''Numerals & Punctuation'') d;
          d = draw_footer e d;
          y = PAGE_HEIGHT - MARGIN - 50;
          sizes = [72, 48, 36, 24, 18, 14];
          d = db_font ''Helvetica'' 10 d;
          d = db_fill (Some (5/10)) d;
          d = db_text (ascii ''NUMERALS'') MARGIN y d;
          y = y - 20;
          (y, d) = numeral_sizes font_path (take 4 sizes) y d;
          y = y - 20;
          d = db_font ''Helvetica'' 10 d;
          d = db_fill (Some (5/10)) d;
          d = db_text (ascii ''PUNCTUATION'') MARGIN y d;
          y = y - 20
      in punctuation_sizes e font_path (drop 2 sizes) y d)"

subsection \<open>Size waterfall\<close>

fun waterfall_sizes :: "path \<Rightarrow> nat list \<Rightarrow> rat \<Rightarrow> drawing \<Rightarrow> drawing" where
  "waterfall_sizes font_path [] y d = d"
| "waterfall_sizes font_path (sz # rest) y d0 =
     (let d = db_font font_path (of_nat sz) d0;
          d = db_fill (Some 0) d;
          d = db_save d;
          d = db_font ''Helvetica'' 8 d;
          d = db_fill (Some (5/10)) d;
          d = db_text (str_nat sz @ ascii ''pt'') MARGIN y d;
          d = db_restore d;
          d = db_font font_path (of_nat sz) d;
          d = db_fill (Some 0) d;
          d = db_text (ascii ''Hamburgefontsiv'') (MARGIN + 40) y d;
          y = y - of_nat sz * (14/10)
      in if y < MARGIN + 20 then d else waterfall_sizes font_path rest y d)"

definition waterfall_page :: "env \<Rightarrow> path \<Rightarrow> font_info \<Rightarrow> drawing \<Rightarrow> drawing" where
  "waterfall_page e font_path fi d0 =
     (let d = db_newPage PAGE_WIDTH PAGE_HEIGHT d0;
          d = draw_header e fi (ascii ''Size Waterfall'') d;
          d = draw_footer e d;
          y = PAGE_HEIGHT - MARGIN - 40
      in waterfall_sizes font_path [72, 60, 48, 36, 30, 24, 20, 18, 16, 14, 12, 11, 10, 9, 8, 7, 6] y d)"

subsection \<open>Spacing proof\<close>

text \<open>
  The truncation of a probe line: \<open>while db.textSize(line)[0] > PAGE_WIDTH - 2 * MARGIN and
  len(line) > 10: line = line[:-2]\<close>, entered only if the line is too wide.
\<close>

function truncate_loop :: "env \<Rightarrow> drawing \<Rightarrow> ustr \<Rightarrow> ustr" where
  "truncate_loop e d line =
     (if db_textSize e d line > PAGE_WIDTH - 2 * MARGIN \<and> length line > 10
      then truncate_loop e d (take (length line - 2) line)
      else line)"
  by pat_completeness auto
termination
  by (relation "measure (\<lambda>(e, d, line). length line)") auto

declare truncate_loop.simps [simp del]

definition fit_or_truncate :: "env \<Rightarrow> drawing \<Rightarrow> ustr \<Rightarrow> ustr" where
  "fit_or_truncate e d line =
     (if db_textSize e d line > PAGE_WIDTH - 2 * MARGIN then truncate_loop e d line else line)"

definition probe_line :: "nat \<Rightarrow> ustr" where
  "probe_line c = [c] @ join [c] (map (\<lambda>x. [x]) lowercase) @ [c]"

fun spacing_lines :: "env \<Rightarrow> font_info \<Rightarrow> nat list \<Rightarrow> rat \<Rightarrow> rat \<Rightarrow> drawing \<Rightarrow> drawing" where
  "spacing_lines e fi [] line_height y d = d"
| "spacing_lines e fi (c # rest) line_height y d0 =
     (let line = fit_or_truncate e d0 (probe_line c);
          d = db_text line MARGIN y d0;
          y = y - line_height
      in if y < MARGIN + 30
         then (let d = db_newPage PAGE_WIDTH PAGE_HEIGHT d;
                   d = draw_header e fi (ascii ''Spacing Proof (continued)'') d;
                   d = draw_footer e d;
                   y = PAGE_HEIGHT - MARGIN - 40
               in spacing_lines e fi rest line_height y d)
         else spacing_lines e fi rest line_height y d)"

definition spacing_page :: "env \<Rightarrow> path \<Rightarrow> font_info \<Rightarrow> drawing \<Rightarrow> drawing" where
  "spacing_page e font_path fi d0 =
     (let d = db_newPage PAGE_WIDTH PAGE_HEIGHT d0;
          d = draw_header e fi (ascii ''Spacing Proof'') d;
          d = draw_footer e d;
          y = PAGE_HEIGHT - MARGIN - 40;
          sz = 14;
          line_height = sz * (14/10);
          d = db_font font_path sz d;
          d = db_fill (Some 0) d
      in spacing_lines e fi lowercase line_height y d)"

subsection \<open>Paragraph setting\<close>

definition sample_text :: ustr where
  "sample_text = ascii (''The quick brown fox jumps over the lazy dog. Pack my box with five dozen liquor jugs. ''
     @ ''How vexingly quick daft zebras jump! The five boxing wizards jump quickly. ''
     @ ''Sphinx of black quartz, judge my vow. Two driven jocks help fax my big quiz. ''
     @ ''The jay, pig, fox, zebra, and my wolves quack!'')"

fun paragraph_sizes :: "path \<Rightarrow> nat list \<Rightarrow> rat \<Rightarrow> drawing \<Rightarrow> drawing" where
  "paragraph_sizes font_path [] y d = d"
| "paragraph_sizes font_path (sz # rest) y d0 =
     (let d = db_font ''Helvetica'' 8 d0;
          d = db_fill (Some (5/10)) d;
          d = db_text (str_nat sz @ ascii ''pt / ''
                       @ str_nat (nat \<lfloor>of_nat sz * (14/10) :: rat\<rfloor>) @ ascii ''pt leading'') MARGIN y d;
          y = y - 14;
          d = db_font font_path (of_nat sz) d;
          d = db_fill (Some 0) d;
          box_height = of_nat sz * 6;
          box_width = PAGE_WIDTH - 2 * MARGIN;
          d = db_textBox sample_text MARGIN (y - box_height) box_width box_height d;
          y = y - (box_height + 30)
      in if y < MARGIN + 80 then d else paragraph_sizes font_path rest y d)"

definition paragraph_page :: "env \<Rightarrow> path \<Rightarrow> font_info \<Rightarrow> drawing \<Rightarrow> drawing" where
  "paragraph_page e font_path fi d0 =
     (let d = db_newPage PAGE_WIDTH PAGE_HEIGHT d0;
          d = draw_header e fi (ascii ''Paragraph Setting'') d;
          d = draw_footer e d;
          y = PAGE_HEIGHT - MARGIN - 40
      in paragraph_sizes font_path [14, 12, 10, 9, 8] y d)"

subsection \<open>Kerning pairs\<close>

text \<open>The fifth line holds quotation marks (34) and apostrophes (39) around A, T and V.\<close>

definition kern_pairs :: "ustr list" where
  "kern_pairs =
     [ascii ''AV AW AT AY Av Aw Ay AC AG AO AQ AU'',
      ascii ''FA TA PA VA WA YA LT LV LW LY'',
      ascii ''To Tr Tu Tw Ty Te Ta Tc Ts'',
      ascii ''Vo Va Ve Vu Vy Wo Wa We Wy'',
      ascii ''Ya Ye Yo Yu '' @ [34, 65, 34, 32, 39, 65, 39, 32, 34, 84, 34, 32, 39, 84, 39, 32, 34, 86, 34],
      ascii ''ff fi fl ffi ffl ft'',
      ascii ''oo oc oe og oq op od ob'',
      ascii ''rv ry rw ra re ro rc'']"

fun kerning_lines :: "path \<Rightarrow> nat \<Rightarrow> ustr list \<Rightarrow> rat \<Rightarrow> drawing \<Rightarrow> drawing" where
  "kerning_lines font_path sz [] y d = d"
| "kerning_lines font_path sz (pairs # rest) y d0 =
     (let d = db_font font_path (of_nat sz) d0;
          d = db_fill (Some 0) d;
          d = db_text pairs MARGIN y d;
          y = y - of_nat sz * (16/10)
      in if y < MARGIN + 30 then d else kerning_lines font_path sz rest y d)"

definition kerning_page :: "env \<Rightarrow> path \<Rightarrow> font_info \<Rightarrow> drawing \<Rightarrow> drawing" where
  "kerning_page e font_path fi d0 =
     (let d = db_newPage PAGE_WIDTH PAGE_HEIGHT d0;
          d = draw_header e fi (ascii ''Kerning Pairs'') d;
          d = draw_footer e d;
          y = PAGE_HEIGHT - MARGIN - 50
      in kerning_lines font_path 24 kern_pairs y d)"

subsection \<open>Character set\<close>

text \<open>
  What the run can raise. \<open>chr\<close> raises \<open>ValueError\<close> outside \<open>range(0x110000)\<close>; opening a
  font raises when the file is missing or is not a font; saving raises when the destination
  cannot be written.
\<close>

datatype error = FontNotFound | FontParseError | ValueError | OutputWriteError

definition py_chr :: "nat \<Rightarrow> error + ustr" where
  "py_chr cp = (if cp < 0x110000 then Inr [cp] else Inl ValueError)"

text \<open>The character map is a dictionary from code points to glyph names.\<close>

type_synonym cmap = "(nat, string) fmap"

definition cols :: rat where "cols = 12"
definition cell_size :: rat where "cell_size = (PAGE_WIDTH - 2 * MARGIN) / cols"
definition glyph_size :: rat where "glyph_size = cell_size * (6/10)"
definition x_start :: rat where "x_start = MARGIN"
definition y_start :: rat where "y_start = PAGE_HEIGHT - MARGIN - 50"

text \<open>One grid cell: the border, the glyph centred in it, the code-point label.\<close>

definition draw_cell :: "env \<Rightarrow> path \<Rightarrow> nat \<Rightarrow> ustr \<Rightarrow> rat \<Rightarrow> rat \<Rightarrow> drawing \<Rightarrow> drawing" where
  "draw_cell e font_path cp char x y d0 =
     (let d = db_save d0;
          d = db_stroke (Some (85/100)) d;
          d = db_strokeWidth (5/10) d;
          d = db_fill None d;
          d = db_rect x (y - cell_size) cell_size cell_size d;
          d = db_restore d;
          d = db_save d;
          d = db_font font_path glyph_size d;
          d = db_fill (Some 0) d;
          char_width = db_textSize e d char;
          char_x = x + (cell_size - char_width) / 2;
          char_y = y - cell_size + cell_size * (25/100);
          d = db_text char char_x char_y d;
          d = db_restore d;
          d = db_save d;
          d = db_font ''Helvetica'' 5 d;
          d = db_fill (Some (6/10)) d;
          label = format_04X cp;
          d = db_text label (x + 2) (y - cell_size + 3) d
      in db_restore d)"

text \<open>
  The loop over the sorted code points, with its cursor \<open>(x, y)\<close> and page counter; the
  cursor moves a cell to the right, wraps to the next row, and wraps to a new page.
\<close>

fun glyph_cells ::
  "env \<Rightarrow> path \<Rightarrow> font_info \<Rightarrow> nat list \<Rightarrow> rat \<Rightarrow> rat \<Rightarrow> nat \<Rightarrow> drawing \<Rightarrow> error + (nat \<times> drawing)"
where
  "glyph_cells e font_path fi [] x y page_num d = Inr (page_num, d)"
| "glyph_cells e font_path fi (cp # rest) x y page_num d0 =
     (case py_chr cp of
        Inl err \<Rightarrow> Inl err
      | Inr char \<Rightarrow>
          (let d = draw_cell e font_path cp char x y d0;
               x = x + cell_size
           in if x + cell_size > PAGE_WIDTH - MARGIN
              then (let x = x_start;
                        y = y - cell_size
                    in if y - cell_size < MARGIN
                       then (let page_num = page_num + 1;
                                 d = db_newPage PAGE_WIDTH PAGE_HEIGHT d;
                                 d = draw_header e fi
                                       (ascii ''Character Set (page '' @ str_nat page_num @ ascii '')'') d;
                                 d = draw_footer e d;
                                 x = x_start;
                                 y = y_start
                             in glyph_cells e font_path fi rest x y page_num d)
                       else glyph_cells e font_path fi rest x y page_num d)
              else glyph_cells e font_path fi rest x y page_num d))"

definition glyph_set_page ::
  "env \<Rightarrow> path \<Rightarrow> font_info \<Rightarrow> cmap \<Rightarrow> nat \<Rightarrow> drawing \<Rightarrow> error + (nat \<times> drawing)"
where
  "glyph_set_page e font_path fi cm start_page d0 =
     (let d = db_newPage PAGE_WIDTH PAGE_HEIGHT d0;
          d = draw_header e fi (ascii ''Character Set'') d;
          d = draw_footer e d;
          x = x_start;
          y = y_start;
          codepoints = sorted_list_of_fset (fmdom cm);
          page_num = start_page
      in glyph_cells e font_path fi codepoints x y page_num d)"

subsection \<open>Arabic\<close>

text \<open>
  \<open>[chr(cp) for cp in range(0x0600, 0x06FF) if cp in cmap]\<close>: \<open>chr\<close> cannot raise on this
  range, so each element is the one-character text of its code point.
\<close>

definition arabic_chars :: "cmap \<Rightarrow> ustr list" where
  "arabic_chars cm = map (\<lambda>cp. [cp]) (filter (\<lambda>cp. cp |\<in>| fmdom cm) [0x0600 ..< 0x06FF])"

definition arabic_samples :: "cmap \<Rightarrow> ustr list" where
  "arabic_samples cm =
     [concat (take 28 (arabic_chars cm)),
      (if length (arabic_chars cm) > 28 then concat (take 28 (drop 28 (arabic_chars cm))) else [])]"

fun arabic_sample_lines :: "ustr list \<Rightarrow> nat \<Rightarrow> rat \<Rightarrow> drawing \<Rightarrow> rat \<times> drawing" where
  "arabic_sample_lines [] sz y d = (y, d)"
| "arabic_sample_lines (sample # rest) sz y d =
     (if sample \<noteq> []
      then arabic_sample_lines rest sz (y - of_nat sz * (15/10)) (db_text sample MARGIN y d)
      else arabic_sample_lines rest sz y d)"

fun arabic_sizes :: "path \<Rightarrow> ustr list \<Rightarrow> nat list \<Rightarrow> rat \<Rightarrow> drawing \<Rightarrow> drawing" where
  "arabic_sizes font_path samples [] y d = d"
| "arabic_sizes font_path samples (sz # rest) y d0 =
     (let d = db_font font_path (of_nat sz) d0;
          d = db_fill (Some 0) d;
          (y, d) = arabic_sample_lines samples sz y d;
          y = y - 20
      in if y < MARGIN + 50 then d else arabic_sizes font_path samples rest y d)"

definition arabic_page :: "env \<Rightarrow> path \<Rightarrow> font_info \<Rightarrow> cmap \<Rightarrow> drawing \<Rightarrow> drawing" where
  "arabic_page e font_path fi cm d0 =
     (if arabic_chars cm = [] then d0
      else (let d = db_newPage PAGE_WIDTH PAGE_HEIGHT d0;
                d = draw_header e fi (ascii ''Arabic'') d;
                d = draw_footer e d;
                y = PAGE_HEIGHT - MARGIN - 50
            in arabic_sizes font_path (arabic_samples cm) [48, 36, 24, 18] y d))"

section \<open>Font files and the document driver\<close>

text \<open>
  A font that \<open>TTFont\<close> can read: its name records (name ID and decoded text, in table
  order), its glyph order, its units per em and its best Unicode character map. What lies
  at a path is such a font, a written PDF, or anything else.
\<close>

record ttfont =
  names :: "(nat \<times> ustr) list"
  glyph_order :: "string list"
  units_per_em :: nat
  best_cmap :: cmap

datatype content = FontFile ttfont | PdfFile "page list" | OtherFile

text \<open>
  The world of a run: the files, which paths can be written, the console, and the paths
  handed to \<open>TTFont\<close> so far.
\<close>

record world =
  files :: "path \<Rightarrow> content option"
  writable :: "path \<Rightarrow> bool"
  stdout :: "ustr list"
  opened :: "path list"

definition py_print :: "ustr \<Rightarrow> world \<Rightarrow> world" where
  "py_print s w = w\<lparr>stdout := stdout w @ [s]\<rparr>"

definition TTFont :: "path \<Rightarrow> world \<Rightarrow> (error + ttfont) \<times> world" where
  "TTFont p w0 =
     (let w = w0\<lparr>opened := opened w0 @ [p]\<rparr>
      in case files w p of
           None \<Rightarrow> (Inl FontNotFound, w)
         | Some (FontFile tt) \<Rightarrow> (Inr tt, w)
         | Some _ \<Rightarrow> (Inl FontParseError, w))"

fun name_records :: "(nat \<times> ustr) list \<Rightarrow> font_info \<Rightarrow> font_info" where
  "name_records [] info = info"
| "name_records ((nameID, s) # rest) info =
     name_records rest
       (if nameID = 1 then info\<lparr>family := s\<rparr>
        else if nameID = 2 then info\<lparr>style := s\<rparr>
        else if nameID = 5 then info\<lparr>version := s\<rparr>
        else if nameID = 9 then info\<lparr>designer := s\<rparr>
        else info)"

text \<open>What \<open>get_font_info\<close> extracts from an opened font.\<close>

definition font_info_of :: "ttfont \<Rightarrow> font_info" where
  "font_info_of tt =
     (let info = \<lparr>family = [], style = [], version = [], designer = [],
                  glyph_count = 0, upm = 0\<rparr>;
          info = name_records (names tt) info;
          info = info\<lparr>glyph_count := length (glyph_order tt)\<rparr>;
          info = info\<lparr>upm := units_per_em tt\<rparr>
      in info)"

definition get_font_info :: "path \<Rightarrow> world \<Rightarrow> (error + font_info) \<times> world" where
  "get_font_info font_path w0 =
     (case TTFont font_path w0 of
        (Inl err, w) \<Rightarrow> (Inl err, w)
      | (Inr tt, w) \<Rightarrow> (Inr (font_info_of tt), w))"

definition get_cmap :: "path \<Rightarrow> world \<Rightarrow> (error + cmap) \<times> world" where
  "get_cmap font_path w0 =
     (case TTFont font_path w0 of
        (Inl err, w) \<Rightarrow> (Inl err, w)
      | (Inr tt, w) \<Rightarrow> (Inr (best_cmap tt), w))"

definition db_saveImage :: "path \<Rightarrow> drawing \<Rightarrow> world \<Rightarrow> (error + unit) \<times> world" where
  "db_saveImage p d w =
     (if writable w p then (Inr (), w\<lparr>files := (files w)(p \<mapsto> PdfFile (pages d))\<rparr>)
      else (Inl OutputWriteError, w))"

text \<open>\<open>Path.name\<close>: the last component of a path.\<close>

definition path_name :: "path \<Rightarrow> path" where
  "path_name p = rev (takeWhile (\<lambda>c. c \<noteq> CHR ''/'') (rev p))"

text \<open>
  \<open>generate_proof\<close> returns \<open>False\<close> after its \<open>Font not found\<close> message, \<open>True\<close> after
  saving, and otherwise ends with the exception of the call that raised (\<open>Inl\<close>).
\<close>

definition generate_proof :: "env \<Rightarrow> path \<Rightarrow> path \<Rightarrow> world \<Rightarrow> (error + bool) \<times> world" where
  "generate_proof e font_path0 output_path0 w0 =
     (let font_path = resolve e font_path0;
          output_path = resolve e output_path0
      in if files w0 font_path = None
         then (Inr False, py_print (ascii ''Error: Font not found at '' @ ascii font_path) w0)
         else
           (let w = py_print (ascii ''Generating proof for: '' @ ascii (path_name font_path)) w0
            in case get_font_info font_path w of
                 (Inl err, w) \<Rightarrow> (Inl err, w)
               | (Inr fi, w) \<Rightarrow>
                   (case get_cmap font_path w of
                      (Inl err, w) \<Rightarrow> (Inl err, w)
                    | (Inr cm, w) \<Rightarrow>
                        (let w = py_print (ascii ''  Family: '' @ family fi) w;
                             w = py_print (ascii ''  Style: '' @ style fi) w;
                             w = py_print (ascii ''  Glyphs: '' @ str_nat (glyph_count fi)) w;
                             d = db_newDrawing;
                             w = py_print (ascii ''  Creating pages...'') w;
                             d = title_page e font_path fi d;
                             d = alphabet_page e font_path fi d;
                             d = numerals_page e font_path fi d;
                             d = waterfall_page e font_path fi d;
                             d = spacing_page e font_path fi d;
                             d = paragraph_page e font_path fi d;
                             d = kerning_page e font_path fi d
                         in case glyph_set_page e font_path fi cm 1 d of
                              Inl err \<Rightarrow> (Inl err, w)
                            | Inr (page_num, d) \<Rightarrow>
                                (let d = arabic_page e font_path fi cm d;
                                     total_pages = db_pageCount d
                                 in case db_saveImage output_path d w of
                                      (Inl err, w) \<Rightarrow> (Inl err, w)
                                    | (Inr u, w) \<Rightarrow>
                                        (let w = py_print (ascii ''  Saved: '' @ ascii output_path) w;
                                             w = py_print (ascii ''  Pages: '' @ str_nat total_pages) w
                                         in (Inr True, w)))))))"

text \<open>
  The script: the arguments default to the bundled font and to \<open>proof.pdf\<close> beside the
  script; the exit status is 0 if \<open>generate_proof\<close> returned \<open>True\<close>, 1 if it returned
  \<open>False\<close>, and 1 as well when the interpreter ends on an uncaught exception.
\<close>

definition font_arg :: "env \<Rightarrow> string list \<Rightarrow> path" where
  "font_arg e argv =
     (let default_font = script_dir e @ ''/fonts/VirtuaGrotesk-Regular.ttf''
      in if length argv > 1 then argv ! 1 else default_font)"

definition output_arg :: "env \<Rightarrow> string list \<Rightarrow> path" where
  "output_arg e argv =
     (let default_output = script_dir e @ ''/proof.pdf''
      in if length argv > 2 then argv ! 2 else default_output)"

definition main :: "env \<Rightarrow> string list \<Rightarrow> world \<Rightarrow> nat \<times> world" where
  "main e argv w0 =
     (let font_path = font_arg e argv;
          output_path = output_arg e argv
      in case generate_proof e font_path output_path w0 of
           (Inr success, w) \<Rightarrow> ((if success then 0 else 1), w)
         | (Inl err, w) \<Rightarrow> (1, w))"

section \<open>Observations and sample inputs\<close>

text \<open>What has been drawn on the current page.\<close>

definition current_items :: "drawing \<Rightarrow> item list" where
  "current_items d = (if pages d = [] then [] else items (last (pages d)))"

text \<open>The width test of the templates, for the current font and size.\<close>

definition too_wide :: "env \<Rightarrow> drawing \<Rightarrow> ustr \<Rightarrow> bool" where
  "too_wide e d line = (db_textSize e d line > PAGE_WIDTH - 2 * MARGIN)"

text \<open>
  Two measurers for concrete runs: one gives every character six tenths of the font size,
  the other finds every text 1000 points wide.
\<close>

definition mono_env :: env where
  "mono_env =
     \<lparr>text_width = (\<lambda>f s t. of_nat (length t) * s * (6/10)),
      date_str = ascii ''2024-05-01'',
      date_time_str = ascii ''2024-05-01 12:00'',
      resolve = (\<lambda>p. p),
      script_dir = ''/repo''\<rparr>"

definition wide_env :: env where
  "wide_env = mono_env\<lparr>text_width := (\<lambda>f s t. 1000)\<rparr>"

text \<open>The drawing as \<open>spacing_page\<close> has it when it measures its probe lines.\<close>

definition spacing_state :: drawing where
  "spacing_state =
     db_fill (Some 0) (db_font ''/fonts/f.ttf'' 14 (db_newPage PAGE_WIDTH PAGE_HEIGHT db_newDrawing))"

text \<open>
  The header and footer as they appear on a fresh page: family and style on the left of the
  header line, the page title right-aligned on it, the date on the footer line. A page
  carries them when they are its first three items; a page is unadorned when nothing is
  drawn on either line.
\<close>

definition header_gstate :: gstate where
  "header_gstate = default_gstate\<lparr>gfont := ''Helvetica'', gsize := 9, gfill := Some (4/10)\<rparr>"

definition footer_gstate :: gstate where
  "footer_gstate = default_gstate\<lparr>gfont := ''Helvetica'', gsize := 8, gfill := Some (5/10)\<rparr>"

definition header_items :: "env \<Rightarrow> font_info \<Rightarrow> ustr \<Rightarrow> item list" where
  "header_items e fi t =
     [Text (family fi @ ascii '' '' @ style fi) MARGIN (PAGE_HEIGHT - MARGIN + 10) header_gstate,
      Text t (PAGE_WIDTH - MARGIN - text_width e ''Helvetica'' 9 t) (PAGE_HEIGHT - MARGIN + 10)
        header_gstate]"

definition footer_items :: "env \<Rightarrow> item list" where
  "footer_items e = [Text (date_str e) MARGIN (MARGIN - 20) footer_gstate]"

definition chrome_title :: "page \<Rightarrow> ustr" where
  "chrome_title pg = (case items pg of _ # Text t _ _ _ # _ \<Rightarrow> t | _ \<Rightarrow> [])"

definition has_chrome :: "env \<Rightarrow> font_info \<Rightarrow> page \<Rightarrow> bool" where
  "has_chrome e fi pg = (take 3 (items pg) = header_items e fi (chrome_title pg) @ footer_items e)"

definition on_chrome_line :: "item \<Rightarrow> bool" where
  "on_chrome_line it =
     (case it of Text t x y g \<Rightarrow> y = PAGE_HEIGHT - MARGIN + 10 \<or> y = MARGIN - 20 | _ \<Rightarrow> False)"

definition unadorned :: "page \<Rightarrow> bool" where
  "unadorned pg = (filter on_chrome_line (items pg) = [])"

text \<open>The opening of every template but the title page: a new page, its header, its footer.\<close>

definition new_chrome_page :: "env \<Rightarrow> font_info \<Rightarrow> ustr \<Rightarrow> drawing \<Rightarrow> drawing" where
  "new_chrome_page e fi t d = draw_footer e (draw_header e fi t (db_newPage PAGE_WIDTH PAGE_HEIGHT d))"

text \<open>
  What a template may do to the drawing after its first page is open: draw on the current
  page, change the graphics state, and open further pages with header and footer.
\<close>

inductive draws :: "env \<Rightarrow> font_info \<Rightarrow> drawing \<Rightarrow> drawing \<Rightarrow> bool" for e fi d where
  draws_refl: "draws e fi d d"
| draws_emit: "draws e fi d d' \<Longrightarrow> draws e fi d (emit it d')"
| draws_gs: "draws e fi d d' \<Longrightarrow> draws e fi d (d'\<lparr>gs := g\<rparr>)"
| draws_saved: "draws e fi d d' \<Longrightarrow> draws e fi d (d'\<lparr>saved := s\<rparr>)"
| draws_page: "draws e fi d d' \<Longrightarrow> draws e fi d (new_chrome_page e fi t d')"

text \<open>A character map whose keys are all Unicode code points, so that \<open>chr\<close> accepts them.\<close>

definition unicode_cmap :: "cmap \<Rightarrow> bool" where
  "unicode_cmap cm = (\<forall>cp\<in>fmdom' cm. cp < 0x110000)"

text \<open>The pages of the PDF written at a path, if one was.\<close>

definition saved_pages :: "world \<Rightarrow> path \<Rightarrow> page list option" where
  "saved_pages w p = (case files w p of Some (PdfFile pgs) \<Rightarrow> Some pgs | _ \<Rightarrow> None)"

text \<open>A font with the capital letters A to Z, and a world that holds one font file.\<close>

definition latin_font :: ttfont where
  "latin_font =
     \<lparr>names = [(1, ascii ''Virtua Grotesk''), (2, ascii ''Regular''), (5, ascii ''Version 1.000'')],
      glyph_order = replicate 27 ''glyph'',
      units_per_em = 1000,
      best_cmap = fmap_of_list (map (\<lambda>cp. (cp, ''glyph'')) [0x41 ..< 0x5B])\<rparr>"

definition font_world :: "ttfont \<Rightarrow> world" where
  "font_world tt =
     \<lparr>files = (\<lambda>p. if p = ''/fonts/f.ttf'' then Some (FontFile tt) else None),
      writable = (\<lambda>p. True), stdout = [], opened = []\<rparr>"

section \<open>The drawing surface: basic facts\<close>

lemmas page_consts = PAGE_WIDTH_def PAGE_HEIGHT_def MARGIN_def

lemmas db_ops = db_save_def db_restore_def db_font_def db_fill_def db_stroke_def
  db_strokeWidth_def db_text_def db_rect_def db_textBox_def db_textSize_def

lemma gs_emit [simp]: "gs (emit it d) = gs d"
  by (simp add: emit_def split: list.splits)

lemma saved_emit [simp]: "saved (emit it d) = saved d"
  by (simp add: emit_def split: list.splits)

lemma pages_emit_nonempty [simp]: "pages (emit it d) \<noteq> []"
  by (simp add: emit_def split: list.splits)

lemma length_pages_emit [simp]:
  "length (pages (emit it d)) = (if pages d = [] then 1 else length (pages d))"
  by (simp add: emit_def split: list.splits)

lemma current_items_emit [simp]: "current_items (emit it d) = current_items d @ [it]"
  by (simp add: emit_def current_items_def split: list.splits)

lemma current_items_gs [simp]: "current_items (d\<lparr>gs := g\<rparr>) = current_items d"
  by (simp add: current_items_def)

lemma current_items_saved [simp]: "current_items (d\<lparr>saved := g\<rparr>) = current_items d"
  by (simp add: current_items_def)

section \<open>Fit or split\<close>

text \<open>
  C4. A text whose measured width exceeds the usable width is drawn as exactly two lines:
  the first \<open>len(t) // 2\<close> characters, then the remaining suffix one line lower. Neither
  half is measured or split again.
\<close>

theorem fit_or_split_splits_at_midpoint:
  assumes "text_width e (gfont (gs d)) (gsize (gs d)) t > PAGE_WIDTH - 2 * MARGIN"
  shows "fst (fit_or_split e t sz y d) = y - of_nat sz * (13/10)
       \<and> current_items (snd (fit_or_split e t sz y d)) =
           current_items d @
             [Text (take (length t div 2) t) MARGIN y (gs d),
              Text (drop (length t div 2) t) MARGIN (y - of_nat sz * (13/10)) (gs d)]
       \<and> length (take (length t div 2) t) = length t div 2
       \<and> take (length t div 2) t @ drop (length t div 2) t = t"
  using assms by (simp add: fit_or_split_def db_ops Let_def)

theorem fit_or_split_splits_at_midpoint_witness:
  "text_width mono_env ''/f.ttf'' 48 uppercase > PAGE_WIDTH - 2 * MARGIN
   \<and> current_items (snd (fit_or_split mono_env uppercase 48 716
        (db_font ''/f.ttf'' 48 (db_newPage PAGE_WIDTH PAGE_HEIGHT db_newDrawing)))) =
      [Text (ascii ''ABCDEFGHIJKLM'') 36 716 (default_gstate\<lparr>gfont := ''/f.ttf'', gsize := 48\<rparr>),
       Text (ascii ''NOPQRSTUVWXYZ'') 36 (716 - 48 * (13/10))
         (default_gstate\<lparr>gfont := ''/f.ttf'', gsize := 48\<rparr>)]"
proof -
  let ?d = "db_font ''/f.ttf'' 48 (db_newPage PAGE_WIDTH PAGE_HEIGHT db_newDrawing)"
  have w: "text_width mono_env (gfont (gs ?d)) (gsize (gs ?d)) uppercase > PAGE_WIDTH - 2 * MARGIN"
    by (simp add: mono_env_def uppercase_def ascii_def page_consts db_ops db_newPage_def)
  have c: "current_items ?d = []"
    by (simp add: current_items_def db_ops db_newPage_def)
  have g: "gs ?d = default_gstate\<lparr>gfont := ''/f.ttf'', gsize := 48\<rparr>"
    by (simp add: db_ops db_newPage_def)
  show ?thesis
    using fit_or_split_splits_at_midpoint [OF w, of 48 716] w c g
    by (simp add: uppercase_def ascii_def page_consts db_ops db_newPage_def)
qed

text \<open>
  C5. A text whose measured width is at most the usable width (the boundary included) is
  drawn whole, as one line, and the cursor stays where it was.
\<close>

theorem fit_or_split_keeps_fitting_text:
  assumes "text_width e (gfont (gs d)) (gsize (gs d)) t \<le> PAGE_WIDTH - 2 * MARGIN"
  shows "fit_or_split e t sz y d = (y, emit (Text t MARGIN y (gs d)) d)
       \<and> current_items (snd (fit_or_split e t sz y d)) = current_items d @ [Text t MARGIN y (gs d)]"
  using assms by (simp add: fit_or_split_def db_ops Let_def)

theorem fit_or_split_keeps_fitting_text_witness:
  "text_width mono_env ''/f.ttf'' 36 (ascii ''ABCDEFGHIJKLMNOPQRSTUVWXY'') = PAGE_WIDTH - 2 * MARGIN
   \<and> current_items (snd (fit_or_split mono_env (ascii ''ABCDEFGHIJKLMNOPQRSTUVWXY'') 36 716
        (db_font ''/f.ttf'' 36 (db_newPage PAGE_WIDTH PAGE_HEIGHT db_newDrawing)))) =
      [Text (ascii ''ABCDEFGHIJKLMNOPQRSTUVWXY'') 36 716 (default_gstate\<lparr>gfont := ''/f.ttf'', gsize := 36\<rparr>)]"
proof -
  let ?d = "db_font ''/f.ttf'' 36 (db_newPage PAGE_WIDTH PAGE_HEIGHT db_newDrawing)"
  let ?t = "ascii ''ABCDEFGHIJKLMNOPQRSTUVWXY''"
  have w: "text_width mono_env (gfont (gs ?d)) (gsize (gs ?d)) ?t \<le> PAGE_WIDTH - 2 * MARGIN"
    by (simp add: mono_env_def ascii_def page_consts db_ops db_newPage_def)
  have c: "current_items ?d = []"
    by (simp add: current_items_def db_ops db_newPage_def)
  have g: "gs ?d = default_gstate\<lparr>gfont := ''/f.ttf'', gsize := 36\<rparr>"
    by (simp add: db_ops db_newPage_def)
  have b: "text_width mono_env ''/f.ttf'' 36 ?t = PAGE_WIDTH - 2 * MARGIN"
    by (simp add: mono_env_def ascii_def page_consts)
  show ?thesis
    using fit_or_split_keeps_fitting_text [OF w, of 36 716] b c g
    by (simp add: page_consts)
qed

section \<open>Truncation of the spacing probe lines\<close>

lemma truncate_loop_char:
  "\<exists>k. truncate_loop e d line = take (length line - 2 * k) line
      \<and> (\<forall>j<k. too_wide e d (take (length line - 2 * j) line) \<and> length line - 2 * j > 10)
      \<and> (\<not> too_wide e d (truncate_loop e d line) \<or> length (truncate_loop e d line) \<le> 10)"
proof (induction e d line rule: truncate_loop.induct)
  case (1 e d line)
  show ?case
  proof (cases "db_textSize e d line > PAGE_WIDTH - 2 * MARGIN \<and> length line > 10")
    case False
    then have "truncate_loop e d line = line" by (subst truncate_loop.simps) auto
    with False show ?thesis by (intro exI[of _ 0]) (auto simp: too_wide_def)
  next
    case True
    let ?l = "take (length line - 2) line"
    have eq: "truncate_loop e d line = truncate_loop e d ?l"
      using True by (subst truncate_loop.simps) simp
    from "1.IH"[OF True] obtain k where
      k1: "truncate_loop e d ?l = take (length ?l - 2 * k) ?l" and
      k2: "\<forall>j<k. too_wide e d (take (length ?l - 2 * j) ?l) \<and> length ?l - 2 * j > 10" and
      k3: "\<not> too_wide e d (truncate_loop e d ?l) \<or> length (truncate_loop e d ?l) \<le> 10"
      by blast
    have len: "length ?l = length line - 2" by simp
    have tk: "take (length ?l - 2 * j) ?l = take (length line - 2 * Suc j) line" for j
      by (simp add: min_def)
    have "truncate_loop e d line = take (length line - 2 * Suc k) line"
      using eq k1 tk by simp
    moreover have "\<forall>j<Suc k. too_wide e d (take (length line - 2 * j) line) \<and> length line - 2 * j > 10"
    proof (intro allI impI)
      fix j assume "j < Suc k"
      show "too_wide e d (take (length line - 2 * j) line) \<and> length line - 2 * j > 10"
      proof (cases j)
        case 0
        with True show ?thesis by (simp add: too_wide_def)
      next
        case (Suc i)
        with \<open>j < Suc k\<close> have "i < k" by simp
        with k2 have "too_wide e d (take (length ?l - 2 * i) ?l) \<and> length ?l - 2 * i > 10" by blast
        then show ?thesis using Suc tk[of i] by simp
      qed
    qed
    moreover have "\<not> too_wide e d (truncate_loop e d line) \<or> length (truncate_loop e d line) \<le> 10"
      using k3 eq by simp
    ultimately show ?thesis by blast
  qed
qed

lemma truncate_loop_floor: "min (length line) 9 \<le> length (truncate_loop e d line)"
proof (induction e d line rule: truncate_loop.induct)
  case (1 e d line)
  show ?case
  proof (cases "db_textSize e d line > PAGE_WIDTH - 2 * MARGIN \<and> length line > 10")
    case False
    then have "truncate_loop e d line = line" by (subst truncate_loop.simps) auto
    then show ?thesis by simp
  next
    case True
    have "truncate_loop e d line = truncate_loop e d (take (length line - 2) line)"
      using True by (subst truncate_loop.simps) simp
    moreover have "min (length (take (length line - 2) line)) 9 = 9" using True by auto
    moreover have "min (length line) 9 = 9" using True by auto
    ultimately show ?thesis using "1.IH"[OF True] by simp
  qed
qed

lemma truncate_loop_even:
  "even (length line) \<Longrightarrow> min (length line) 10 \<le> length (truncate_loop e d line)"
proof (induction e d line rule: truncate_loop.induct)
  case (1 e d line)
  show ?case
  proof (cases "db_textSize e d line > PAGE_WIDTH - 2 * MARGIN \<and> length line > 10")
    case False
    then have "truncate_loop e d line = line" by (subst truncate_loop.simps) auto
    then show ?thesis by simp
  next
    case True
    have eq: "truncate_loop e d line = truncate_loop e d (take (length line - 2) line)"
      using True by (subst truncate_loop.simps) simp
    have ev: "even (length (take (length line - 2) line))" using "1.prems" True by simp
    from True have gt: "length line > 10" by simp
    obtain k where k: "length line = 2 * k" using "1.prems" by (auto elim: evenE)
    with gt have "length line \<ge> 12" by simp
    then have "min (length (take (length line - 2) line)) 10 = 10" "min (length line) 10 = 10"
      by auto
    with "1.IH"[OF True ev] eq show ?thesis by simp
  qed
qed

lemma fit_or_truncate_loop: "fit_or_truncate e d line = truncate_loop e d line"
proof -
  have "\<not> db_textSize e d line > PAGE_WIDTH - 2 * MARGIN \<Longrightarrow> truncate_loop e d line = line"
    by (subst truncate_loop.simps) simp
  then show ?thesis by (auto simp: fit_or_truncate_def)
qed

text \<open>
  C3 as stated fails: every probe line of \<open>spacing_page\<close> has 53 characters, the loop
  takes two off at a time, and when no prefix fits it steps from 11 characters to 9.
\<close>

theorem fit_or_truncate_below_min_length:
  "10 \<le> length (probe_line 97)
   \<and> length (fit_or_truncate wide_env spacing_state (probe_line 97)) = 9"
  by code_simp

text \<open>
  C3, amended. The result is the line without its last \<open>2 * k\<close> characters, for the least
  \<open>k\<close> whose prefix fits the width or has at most 10 characters. It has at least 9
  characters unless the line itself was shorter, and at least 10 when the line has an even
  length of 10 or more.
\<close>

theorem fit_or_truncate_floor:
  "(\<exists>k. fit_or_truncate e d line = take (length line - 2 * k) line
       \<and> (\<forall>j<k. too_wide e d (take (length line - 2 * j) line) \<and> length line - 2 * j > 10))
   \<and> (\<not> too_wide e d (fit_or_truncate e d line) \<or> length (fit_or_truncate e d line) \<le> 10)
   \<and> min (length line) 9 \<le> length (fit_or_truncate e d line)
   \<and> (even (length line) \<longrightarrow> min (length line) 10 \<le> length (fit_or_truncate e d line))"
  using truncate_loop_char[of e d line] truncate_loop_floor[of line e d] truncate_loop_even[of line e d]
  unfolding fit_or_truncate_loop by blast

theorem fit_or_truncate_floor_witness:
  "even (length (uppercase @ uppercase))
   \<and> min (length (uppercase @ uppercase)) 10
         \<le> length (fit_or_truncate wide_env spacing_state (uppercase @ uppercase))
   \<and> min (length (probe_line 97)) 9
         \<le> length (fit_or_truncate wide_env spacing_state (probe_line 97))"
  using fit_or_truncate_floor [of wide_env spacing_state "uppercase @ uppercase"]
        fit_or_truncate_floor [of wide_env spacing_state "probe_line 97"]
  by (simp add: uppercase_def ascii_def)

section \<open>Pages, headers and footers\<close>

lemma draw_footer_eq:
  "draw_footer e d = emit (Text (date_str e) MARGIN (MARGIN - 20)
      ((gs d)\<lparr>gfont := ''Helvetica'', gsize := 8, gfill := Some (5/10)\<rparr>)) d"
  by (simp add: draw_footer_def Let_def db_ops emit_def split: list.splits)

lemma draw_header_eq:
  "draw_header e fi t d =
     emit (Text t (PAGE_WIDTH - MARGIN - text_width e ''Helvetica'' 9 t) (PAGE_HEIGHT - MARGIN + 10)
            ((gs d)\<lparr>gfont := ''Helvetica'', gsize := 9, gfill := Some (4/10)\<rparr>))
       (emit (Text (family fi @ ascii '' '' @ style fi) MARGIN (PAGE_HEIGHT - MARGIN + 10)
            ((gs d)\<lparr>gfont := ''Helvetica'', gsize := 9, gfill := Some (4/10)\<rparr>)) d)"
  by (simp add: draw_header_def Let_def db_ops emit_def split: list.splits)

lemma pages_emit:
  "pages d \<noteq> [] \<Longrightarrow>
   pages (emit it d) = butlast (pages d) @ [(last (pages d))\<lparr>items := items (last (pages d)) @ [it]\<rparr>]"
  by (simp add: emit_def split: list.splits)

lemma pages_new_chrome_page [simp]:
  "pages (new_chrome_page e fi t d) =
     pages d @ [\<lparr>pwidth = PAGE_WIDTH, pheight = PAGE_HEIGHT,
                 items = header_items e fi t @ footer_items e\<rparr>]"
  by (simp add: new_chrome_page_def draw_footer_eq draw_header_eq pages_emit db_newPage_def
        header_items_def footer_items_def header_gstate_def footer_gstate_def)

lemma gs_new_chrome_page [simp]: "gs (new_chrome_page e fi t d) = default_gstate"
  by (simp add: new_chrome_page_def draw_footer_eq draw_header_eq db_newPage_def)

lemma saved_new_chrome_page [simp]: "saved (new_chrome_page e fi t d) = []"
  by (simp add: new_chrome_page_def draw_footer_eq draw_header_eq db_newPage_def)

lemma has_chrome_new: "has_chrome e fi \<lparr>pwidth = w, pheight = h, items = header_items e fi t @ footer_items e\<rparr>"
  by (simp add: has_chrome_def chrome_title_def header_items_def footer_items_def)

lemma has_chrome_more:
  assumes "has_chrome e fi pg"
  shows "has_chrome e fi (pg\<lparr>items := items pg @ xs\<rparr>)"
proof -
  from assms have "length (take 3 (items pg)) = 3"
    by (simp add: has_chrome_def header_items_def footer_items_def)
  then have "3 \<le> length (items pg)" by simp
  then obtain a b c rest where "items pg = a # b # c # rest"
    by (auto simp: numeral_3_eq_3 Suc_le_length_iff)
  with assms show ?thesis
    by (simp add: has_chrome_def chrome_title_def)
qed

lemma draws_length: "draws e fi d d' \<Longrightarrow> length (pages d) \<le> length (pages d')"
  by (induction rule: draws.induct) auto

lemma draws_take:
  "draws e fi d d' \<Longrightarrow> n < length (pages d) \<Longrightarrow> take n (pages d') = take n (pages d)"
proof (induction rule: draws.induct)
  case (draws_emit d' it)
  then have "n < length (pages d')" using draws_length[of e fi d d'] by simp
  then have "pages d' \<noteq> []" "n \<le> length (butlast (pages d'))" by auto
  then have "take n (pages (emit it d')) = take n (butlast (pages d'))"
    by (simp add: pages_emit)
  also have "\<dots> = take n (pages d')" using \<open>n < length (pages d')\<close>
    by (simp add: take_butlast)
  finally show ?case using draws_emit by simp
next
  case (draws_page d' t)
  then have "n < length (pages d')" using draws_length[of e fi d d'] by simp
  with draws_page show ?case by simp
qed simp_all

lemma draws_chrome:
  "draws e fi d d' \<Longrightarrow> n < length (pages d) \<Longrightarrow>
   \<forall>pg\<in>set (drop n (pages d)). has_chrome e fi pg \<Longrightarrow>
   \<forall>pg\<in>set (drop n (pages d')). has_chrome e fi pg"
proof (induction rule: draws.induct)
  case (draws_emit d' it)
  then have n: "n < length (pages d')" using draws_length[of e fi d d'] by simp
  then have ne: "pages d' \<noteq> []" and nb: "n \<le> length (butlast (pages d'))" by auto
  from n ne have "last (pages d') \<in> set (drop n (pages d'))"
    by (metis drop_eq_Nil last_drop last_in_set not_le)
  with draws_emit have "has_chrome e fi (last (pages d'))" by blast
  then have l: "has_chrome e fi ((last (pages d'))\<lparr>items := items (last (pages d')) @ [it]\<rparr>)"
    by (rule has_chrome_more)
  have "set (drop n (butlast (pages d'))) \<subseteq> set (drop n (pages d'))"
    by (metis butlast_drop in_set_butlastD subsetI)
  with draws_emit l nb ne show ?case
    by (auto simp: pages_emit)
next
  case (draws_page d' t)
  then have "n < length (pages d')" using draws_length[of e fi d d'] by simp
  with draws_page show ?case by (auto simp: has_chrome_new)
qed simp_all

lemma draws_trans: "draws e fi d2 d3 \<Longrightarrow> draws e fi d1 d2 \<Longrightarrow> draws e fi d1 d3"
  by (induction rule: draws.induct) (auto intro: draws.intros)

lemma draws_db_font: "draws e fi d0 d \<Longrightarrow> draws e fi d0 (db_font f s d)"
  by (simp add: db_font_def draws_gs)

lemma draws_db_fill: "draws e fi d0 d \<Longrightarrow> draws e fi d0 (db_fill c d)"
  by (simp add: db_fill_def draws_gs)

lemma draws_db_stroke: "draws e fi d0 d \<Longrightarrow> draws e fi d0 (db_stroke c d)"
  by (simp add: db_stroke_def draws_gs)

lemma draws_db_strokeWidth: "draws e fi d0 d \<Longrightarrow> draws e fi d0 (db_strokeWidth c d)"
  by (simp add: db_strokeWidth_def draws_gs)

lemma draws_db_save: "draws e fi d0 d \<Longrightarrow> draws e fi d0 (db_save d)"
  by (simp add: db_save_def draws_saved)

lemma draws_db_restore: "draws e fi d0 d \<Longrightarrow> draws e fi d0 (db_restore d)"
  by (cases "saved d") (auto simp: db_restore_def intro: draws_gs draws_saved)

lemma draws_db_text: "draws e fi d0 d \<Longrightarrow> draws e fi d0 (db_text t x y d)"
  by (simp add: db_text_def draws_emit)

lemma draws_db_rect: "draws e fi d0 d \<Longrightarrow> draws e fi d0 (db_rect x y w h d)"
  by (simp add: db_rect_def draws_emit)

lemma draws_db_textBox: "draws e fi d0 d \<Longrightarrow> draws e fi d0 (db_textBox t x y w h d)"
  by (simp add: db_textBox_def draws_emit)

lemma draws_chrome_steps:
  "draws e fi d0 d \<Longrightarrow>
   draws e fi d0 (draw_footer e (draw_header e fi t (db_newPage PAGE_WIDTH PAGE_HEIGHT d)))"
  using draws_page[of e fi d0 d t] by (simp add: new_chrome_page_def)

lemmas draws_ops = draws_db_font draws_db_fill draws_db_stroke draws_db_strokeWidth draws_db_save
  draws_db_restore draws_db_text draws_db_rect draws_db_textBox draws_chrome_steps

lemma fit_or_split_draws:
  "draws e fi d0 d \<Longrightarrow> draws e fi d0 (snd (fit_or_split e t sz y d))"
  by (auto simp: fit_or_split_def Let_def intro!: draws_ops)

lemma alphabet_sizes_draws:
  "draws e fi d0 d \<Longrightarrow> draws e fi d0 (alphabet_sizes e fp sizes y d)"
proof (induction sizes arbitrary: y d)
  case (Cons sz rest)
  then show ?case
    by (auto simp: Let_def split_beta intro!: Cons.IH draws_ops fit_or_split_draws)
qed simp

lemma numeral_sizes_draws:
  "draws e fi d0 d \<Longrightarrow> draws e fi d0 (snd (numeral_sizes fp sizes y d))"
proof (induction sizes arbitrary: y d)
  case (Cons sz rest)
  then show ?case
    by (auto simp: Let_def split_beta intro!: Cons.IH draws_ops)
qed simp

lemma punctuation_sizes_draws:
  "draws e fi d0 d \<Longrightarrow> draws e fi d0 (punctuation_sizes e fp sizes y d)"
proof (induction sizes arbitrary: y d)
  case (Cons sz rest)
  then show ?case
    by (auto simp: Let_def split_beta intro!: Cons.IH draws_ops fit_or_split_draws)
qed simp

lemma waterfall_sizes_draws:
  "draws e fi d0 d \<Longrightarrow> draws e fi d0 (waterfall_sizes fp sizes y d)"
proof (induction sizes arbitrary: y d)
  case (Cons sz rest)
  then show ?case
    by (auto simp: Let_def split_beta intro!: Cons.IH draws_ops)
qed simp

lemma spacing_lines_draws:
  "draws e fi d0 d \<Longrightarrow> draws e fi d0 (spacing_lines e fi cs lh y d)"
proof (induction cs arbitrary: y d)
  case (Cons c rest)
  then show ?case
    by (auto simp: Let_def split_beta intro!: Cons.IH draws_ops)
qed simp

lemma paragraph_sizes_draws:
  "draws e fi d0 d \<Longrightarrow> draws e fi d0 (paragraph_sizes fp sizes y d)"
proof (induction sizes arbitrary: y d)
  case (Cons sz rest)
  then show ?case
    by (auto simp: Let_def split_beta intro!: Cons.IH draws_ops)
qed simp

lemma kerning_lines_draws:
  "draws e fi d0 d \<Longrightarrow> draws e fi d0 (kerning_lines fp sz ls y d)"
proof (induction ls arbitrary: y d)
  case (Cons l rest)
  then show ?case
    by (auto simp: Let_def split_beta intro!: Cons.IH draws_ops)
qed simp

lemma arabic_sample_lines_draws:
  "draws e fi d0 d \<Longrightarrow> draws e fi d0 (snd (arabic_sample_lines samples sz y d))"
  by (induction samples arbitrary: y d) (auto intro!: draws_ops)

lemma arabic_sizes_draws:
  "draws e fi d0 d \<Longrightarrow> draws e fi d0 (arabic_sizes fp samples sizes y d)"
proof (induction sizes arbitrary: y d)
  case (Cons sz rest)
  then show ?case
    by (auto simp: Let_def split_beta intro!: Cons.IH draws_ops arabic_sample_lines_draws)
qed simp

lemma draw_cell_draws:
  "draws e fi d0 d \<Longrightarrow> draws e fi d0 (draw_cell e fp cp ch x y d)"
  by (auto simp: draw_cell_def Let_def intro!: draws_ops)

lemma glyph_cells_draws:
  "\<forall>cp\<in>set cps. cp < 0x110000 \<Longrightarrow> draws e fi d0 d \<Longrightarrow>
   \<exists>pn' d'. glyph_cells e fp fi cps x y pn d = Inr (pn', d') \<and> draws e fi d0 d'"
proof (induction cps arbitrary: x y pn d)
  case (Cons cp rest)
  then have v: "py_chr cp = Inr [cp]" and r: "\<forall>cp\<in>set rest. cp < 0x110000"
    by (simp_all add: py_chr_def)
  show ?case
    using v by (auto simp: Let_def intro!: Cons.IH[OF r] draws_ops draw_cell_draws Cons.prems(2))
qed simp

section \<open>The templates and the driver\<close>

lemma alphabet_page_draws:
  "draws e fi (new_chrome_page e fi (ascii ''Alphabet'') d) (alphabet_page e fp fi d)"
  unfolding alphabet_page_def Let_def new_chrome_page_def
  by (intro alphabet_sizes_draws draws_refl)

lemma numerals_page_draws:
  "draws e fi (new_chrome_page e fi (ascii ''Numerals & Punctuation'') d) (numerals_page e fp fi d)"
  unfolding numerals_page_def Let_def split_beta new_chrome_page_def
  by (intro punctuation_sizes_draws numeral_sizes_draws draws_ops draws_refl)

lemma waterfall_page_draws:
  "draws e fi (new_chrome_page e fi (ascii ''Size Waterfall'') d) (waterfall_page e fp fi d)"
  unfolding waterfall_page_def Let_def new_chrome_page_def
  by (intro waterfall_sizes_draws draws_refl)

lemma spacing_page_draws:
  "draws e fi (new_chrome_page e fi (ascii ''Spacing Proof'') d) (spacing_page e fp fi d)"
  unfolding spacing_page_def Let_def new_chrome_page_def
  by (intro spacing_lines_draws draws_db_font draws_db_fill draws_refl)

lemma paragraph_page_draws:
  "draws e fi (new_chrome_page e fi (ascii ''Paragraph Setting'') d) (paragraph_page e fp fi d)"
  unfolding paragraph_page_def Let_def new_chrome_page_def
  by (intro paragraph_sizes_draws draws_refl)

lemma kerning_page_draws:
  "draws e fi (new_chrome_page e fi (ascii ''Kerning Pairs'') d) (kerning_page e fp fi d)"
  unfolding kerning_page_def Let_def new_chrome_page_def
  by (intro kerning_lines_draws draws_refl)

lemma glyph_set_page_draws:
  assumes "unicode_cmap cm"
  shows "\<exists>pn d'. glyph_set_page e fp fi cm sp d = Inr (pn, d')
           \<and> draws e fi (new_chrome_page e fi (ascii ''Character Set'') d) d'"
proof -
  have "\<forall>cp\<in>set (sorted_list_of_fset (fmdom cm)). cp < 0x110000"
    using assms by (simp add: unicode_cmap_def fmdom'_alt_def)
  from glyph_cells_draws[OF this draws_refl]
  show ?thesis
    unfolding glyph_set_page_def Let_def new_chrome_page_def by blast
qed

lemma arabic_page_draws:
  "arabic_chars cm \<noteq> [] \<Longrightarrow>
   draws e fi (new_chrome_page e fi (ascii ''Arabic'') d) (arabic_page e fp fi cm d)"
  unfolding arabic_page_def Let_def new_chrome_page_def
  by (auto simp del: arabic_sizes.simps intro!: arabic_sizes_draws draws_refl)

lemma arabic_page_none: "arabic_chars cm = [] \<Longrightarrow> arabic_page e fp fi cm d = d"
  by (simp add: arabic_page_def)

text \<open>A template that opens with a chrome page adds at least one page and only draws.\<close>

lemma template_step:
  assumes "draws e fi (new_chrome_page e fi t d) d'" and "draws e fi d0 d"
  shows "draws e fi d0 d' \<and> length (pages d) < length (pages d')"
proof -
  have "draws e fi d0 (new_chrome_page e fi t d)" using assms(2) by (rule draws_page)
  with assms(1) have "draws e fi d0 d'" by (rule draws_trans)
  moreover have "length (pages (new_chrome_page e fi t d)) \<le> length (pages d')"
    using assms(1) by (rule draws_length)
  ultimately show ?thesis by simp
qed

lemma emit_snoc:
  "pages d = ps @ [pg] \<Longrightarrow> pages (emit it d) = ps @ [pg\<lparr>items := items pg @ [it]\<rparr>]"
  by (simp add: pages_emit)

lemma draw_lines_pages:
  "pages d = ps @ [pg] \<Longrightarrow> y < PAGE_HEIGHT - MARGIN + 10 \<Longrightarrow>
   MARGIN - 20 < y - 16 * of_nat (length ls) \<Longrightarrow>
   \<exists>its. pages (draw_lines ls y d) = ps @ [pg\<lparr>items := items pg @ its\<rparr>]
         \<and> filter on_chrome_line its = []"
proof (induction ls arbitrary: y d pg)
  case Nil
  then show ?case by (intro exI[of _ "[]"]) simp
next
  case (Cons l rest)
  let ?it = "Text l MARGIN y (gs d)"
  have p: "pages (db_text l MARGIN y d) = ps @ [pg\<lparr>items := items pg @ [?it]\<rparr>]"
    using Cons.prems(1) by (simp add: db_text_def emit_snoc)
  have "y - 16 < PAGE_HEIGHT - MARGIN + 10" using Cons.prems(2) by simp
  moreover have "MARGIN - 20 < (y - 16) - 16 * of_nat (length rest)"
    using Cons.prems(3) by (simp add: algebra_simps)
  ultimately obtain its where
    its: "pages (draw_lines rest (y - 16) (db_text l MARGIN y d)) =
            ps @ [(pg\<lparr>items := items pg @ [?it]\<rparr>)\<lparr>items := items (pg\<lparr>items := items pg @ [?it]\<rparr>) @ its\<rparr>]"
         "filter on_chrome_line its = []"
    using Cons.IH[OF p] by blast
  have "\<not> on_chrome_line ?it"
    using Cons.prems(2,3) by (auto simp: on_chrome_line_def page_consts)
  with its show ?case
    by (intro exI[of _ "?it # its"]) simp
qed

lemma title_page_pages:
  "\<exists>tp. pages (title_page e fp fi d) = pages d @ [tp] \<and> unadorned tp"
proof -
  let ?p0 = "\<lparr>pwidth = PAGE_WIDTH, pheight = PAGE_HEIGHT, items = []\<rparr>"
  let ?y = "PAGE_HEIGHT - MARGIN - 80"
  define d5 where "d5 =
    db_fill (Some (3/10)) (db_font ''Helvetica'' 10
      (db_text (ascii ''Gg Hh Ii'') MARGIN (?y - 50 - 80 - 90 - 90)
        (db_text (ascii ''Dd Ee Ff'') MARGIN (?y - 50 - 80 - 90)
          (db_text (ascii ''Aa Bb Cc'') MARGIN (?y - 50 - 80)
            (db_font fp 72
              (db_text (style fi) MARGIN (?y - 50)
                (db_font fp 24
                  (db_text (family fi) MARGIN ?y
                    (db_fill (Some 0) (db_font fp 48 (db_newPage PAGE_WIDTH PAGE_HEIGHT d)))))))))))"
  obtain pg where pg: "pages d5 = pages d @ [pg]" "filter on_chrome_line (items pg) = []"
    unfolding d5_def
    by (simp add: db_text_def db_font_def db_fill_def db_newPage_def pages_emit on_chrome_line_def page_consts)
  define meta0 where "meta0 =
    [ascii ''Family: '' @ family fi,
     ascii ''Style: '' @ style fi,
     ascii ''Version: '' @ version fi,
     ascii ''Glyphs: '' @ str_nat (glyph_count fi),
     ascii ''Units per Em: '' @ str_nat (upm fi),
     ascii ''Generated: '' @ date_time_str e]"
  define ls where "ls =
    (if designer fi \<noteq> []
     then take 2 meta0 @ [ascii ''Designer: '' @ designer fi] @ drop 2 meta0
     else meta0)"
  have ls: "title_page e fp fi d = draw_lines ls (?y - 50 - 80 - 90 - 90 - 120) d5"
    "length ls \<le> 7"
    unfolding title_page_def Let_def d5_def ls_def meta0_def by (rule refl) simp
  have "MARGIN - 20 < (?y - 50 - 80 - 90 - 90 - 120) - 16 * of_nat (length ls)"
  proof -
    have "(of_nat (length ls) :: rat) \<le> 7" using ls(2) by (metis of_nat_le_iff of_nat_numeral)
    then show ?thesis by (simp add: page_consts)
  qed
  moreover have "(?y - 50 - 80 - 90 - 90 - 120) < PAGE_HEIGHT - MARGIN + 10"
    by (simp add: page_consts)
  ultimately obtain its where "pages (draw_lines ls (?y - 50 - 80 - 90 - 90 - 120) d5) =
      pages d @ [pg\<lparr>items := items pg @ its\<rparr>]" "filter on_chrome_line its = []"
    using draw_lines_pages[OF pg(1)] by blast
  with pg(2) ls(1) show ?thesis
    by (intro exI[of _ "pg\<lparr>items := items pg @ its\<rparr>"]) (simp add: unadorned_def)
qed

lemma generate_proof_saves:
  assumes f: "files w (resolve e p) = Some (FontFile tt)"
      and u: "unicode_cmap (best_cmap tt)"
      and wr: "writable w (resolve e out)"
  shows "\<exists>tp rest.
           fst (generate_proof e p out w) = Inr True
         \<and> saved_pages (snd (generate_proof e p out w)) (resolve e out) = Some (tp # rest)
         \<and> unadorned tp
         \<and> (\<forall>pg\<in>set rest. has_chrome e (font_info_of tt) pg)
         \<and> 7 \<le> length rest
         \<and> opened (snd (generate_proof e p out w)) = opened w @ [resolve e p, resolve e p]"
proof -
  let ?fp = "resolve e p" and ?fi = "font_info_of tt" and ?cm = "best_cmap tt"
  let ?d1 = "title_page e ?fp ?fi db_newDrawing"
  let ?d2 = "alphabet_page e ?fp ?fi ?d1"
  let ?d3 = "numerals_page e ?fp ?fi ?d2"
  let ?d4 = "waterfall_page e ?fp ?fi ?d3"
  let ?d5 = "spacing_page e ?fp ?fi ?d4"
  let ?d6 = "paragraph_page e ?fp ?fi ?d5"
  let ?d7 = "kerning_page e ?fp ?fi ?d6"
  let ?c = "new_chrome_page e ?fi (ascii ''Alphabet'') ?d1"
  obtain pn d8 where g: "glyph_set_page e ?fp ?fi ?cm 1 ?d7 = Inr (pn, d8)"
    and g8: "draws e ?fi (new_chrome_page e ?fi (ascii ''Character Set'') ?d7) d8"
    using glyph_set_page_draws[OF u] by blast
  let ?d9 = "arabic_page e ?fp ?fi ?cm d8"
  obtain tp where tp: "pages ?d1 = [tp]" "unadorned tp"
    using title_page_pages[of e ?fp ?fi db_newDrawing] by (auto simp: db_newDrawing_def)
  have c: "pages ?c = [tp, \<lparr>pwidth = PAGE_WIDTH, pheight = PAGE_HEIGHT,
                           items = header_items e ?fi (ascii ''Alphabet'') @ footer_items e\<rparr>]"
    using tp by simp
  have s2: "draws e ?fi ?c ?d2" by (rule alphabet_page_draws)
  have l2: "2 \<le> length (pages ?d2)" using draws_length[OF s2] c by simp
  have s3: "draws e ?fi ?c ?d3 \<and> length (pages ?d2) < length (pages ?d3)"
    by (rule template_step[OF numerals_page_draws s2])
  have s4: "draws e ?fi ?c ?d4 \<and> length (pages ?d3) < length (pages ?d4)"
    by (rule template_step[OF waterfall_page_draws]) (simp add: s3)
  have s5: "draws e ?fi ?c ?d5 \<and> length (pages ?d4) < length (pages ?d5)"
    by (rule template_step[OF spacing_page_draws]) (simp add: s4)
  have s6: "draws e ?fi ?c ?d6 \<and> length (pages ?d5) < length (pages ?d6)"
    by (rule template_step[OF paragraph_page_draws]) (simp add: s5)
  have s7: "draws e ?fi ?c ?d7 \<and> length (pages ?d6) < length (pages ?d7)"
    by (rule template_step[OF kerning_page_draws]) (simp add: s6)
  have s8: "draws e ?fi ?c d8 \<and> length (pages ?d7) < length (pages d8)"
    by (rule template_step[OF g8]) (simp add: s7)
  have s9: "draws e ?fi ?c ?d9 \<and> length (pages d8) \<le> length (pages ?d9)"
  proof (cases "arabic_chars ?cm = []")
    case True
    then show ?thesis using s8 by (simp add: arabic_page_none)
  next
    case False
    have "draws e ?fi (new_chrome_page e ?fi (ascii ''Arabic'') d8) ?d9"
      using False by (rule arabic_page_draws)
    from template_step[OF this conjunct1[OF s8]]
    show ?thesis by simp
  qed
  have len: "8 \<le> length (pages ?d9)" using l2 s3 s4 s5 s6 s7 s8 s9 by linarith
  have n: "1 < length (pages ?c)" using c by simp
  have tk: "take 1 (pages ?d9) = [tp]"
    using draws_take[OF conjunct1[OF s9] n] c by simp
  have "\<forall>pg\<in>set (drop 1 (pages ?c)). has_chrome e ?fi pg"
    using c by (simp add: has_chrome_new)
  with draws_chrome[OF conjunct1[OF s9] n]
  have ch: "\<forall>pg\<in>set (drop 1 (pages ?d9)). has_chrome e ?fi pg" by blast
  have pg: "pages ?d9 = tp # drop 1 (pages ?d9)"
    using tk append_take_drop_id[of 1 "pages ?d9"] by simp
  have run: "generate_proof e p out w =
      (Inr True,
       py_print (ascii ''  Pages: '' @ str_nat (db_pageCount ?d9))
        (py_print (ascii ''  Saved: '' @ ascii (resolve e out))
          ((py_print (ascii ''  Creating pages...'')
            (py_print (ascii ''  Glyphs: '' @ str_nat (glyph_count ?fi))
              (py_print (ascii ''  Style: '' @ style ?fi)
                (py_print (ascii ''  Family: '' @ family ?fi)
                  ((py_print (ascii ''Generating proof for: '' @ ascii (path_name ?fp)) w)
                     \<lparr>opened := opened w @ [?fp, ?fp]\<rparr>)))))
            \<lparr>files := (files w)(resolve e out \<mapsto> PdfFile (pages ?d9))\<rparr>)))"
    using f wr g
    by (simp add: generate_proof_def Let_def get_font_info_def get_cmap_def TTFont_def
          py_print_def db_saveImage_def)
  show ?thesis
    apply (rule exI[of _ tp], rule exI[of _ "drop 1 (pages ?d9)"])
    using pg ch len tp(2)
    by (simp add: run py_print_def saved_pages_def)
qed

end
